theory Spec2Isabelle
  imports Main
begin

section \<open>Strings as the program sees them\<close>

text \<open>
  The program is TypeScript. Its strings are modelled as \<^typ>\<open>string\<close>, a list of
  characters; a character stands for one code unit with a code below 256, which
  covers every character the version grammar inspects. Numbers that hold a parsed
  version component are modelled as unbounded integers, with \<open>None\<close> standing for the
  value NaN; the model is exact for components below \<open>2 ^ 53\<close>.
\<close>

text \<open>\<^verbatim>\<open>s.replace(/^v/, "")\<close>: one leading \<open>v\<close> is removed, if there is one.\<close>

definition stripV :: "string \<Rightarrow> string" where
  "stripV s = (case s of [] \<Rightarrow> [] | c # r \<Rightarrow> if c = CHR ''v'' then r else s)"

text \<open>\<^verbatim>\<open>s.split(sep)\<close> for a one-character separator: the result is never empty.\<close>

fun splitStr :: "char \<Rightarrow> string \<Rightarrow> string list" where
  "splitStr d [] = [[]]"
| "splitStr d (c # cs) =
     (if c = d then [] # splitStr d cs
      else (case splitStr d cs of [] \<Rightarrow> [[c]] | p # ps \<Rightarrow> (c # p) # ps))"

text \<open>\<^verbatim>\<open>s.startsWith(p)\<close> and \<^verbatim>\<open>s.includesStr(p)\<close>.\<close>

definition startsWith :: "string \<Rightarrow> string \<Rightarrow> bool" where
  "startsWith s p = (take (length p) s = p)"


text \<open>The code of a character, and the character classes of the language.\<close>

definition code :: "char \<Rightarrow> nat" where
  "code c = of_char c"

definition isDigit :: "char \<Rightarrow> bool" where
  "isDigit c = (48 \<le> code c \<and> code c \<le> 57)"

definition isLineTerminator :: "char \<Rightarrow> bool" where
  "isLineTerminator c = (code c = 10 \<or> code c = 13)"

definition isWhiteSpace :: "char \<Rightarrow> bool" where
  "isWhiteSpace c = (code c \<in> {9, 10, 11, 12, 13, 32, 160})"

text \<open>
  The relational operators on two strings compare them code unit by code unit;
  \<open>strLess a b\<close> is \<^verbatim>\<open>a < b\<close>, so \<^verbatim>\<open>a >= b\<close> is its negation.
\<close>

fun strLess :: "string \<Rightarrow> string \<Rightarrow> bool" where
  "strLess [] [] = False"
| "strLess [] (b # bs) = True"
| "strLess (a # as) [] = False"
| "strLess (a # as) (b # bs) =
     (if code a = code b then strLess as bs else code a < code b)"

definition strGreaterEq :: "string \<Rightarrow> string \<Rightarrow> bool" where
  "strGreaterEq a b = (\<not> strLess a b)"

text \<open>
  \<^verbatim>\<open>parseInt(s, 10)\<close>: leading white space is skipped, one sign is read, then the
  longest run of decimal digits; with no digit the result is NaN.
\<close>

definition digitsValue :: "string \<Rightarrow> nat" where
  "digitsValue ds = foldl (\<lambda>a c. 10 * a + (code c - 48)) 0 ds"

definition parseInt :: "string \<Rightarrow> int option" where
  "parseInt s =
     (let t = dropWhile isWhiteSpace s;
          neg = (t \<noteq> [] \<and> hd t = CHR ''-'');
          u = (if t \<noteq> [] \<and> (hd t = CHR ''-'' \<or> hd t = CHR ''+'') then tl t else t);
          ds = takeWhile isDigit u
      in if ds = [] then None
         else Some (if neg then - int (digitsValue ds) else int (digitsValue ds)))"

section \<open>The version matcher (TerminalService)\<close>

record ParsedVersion =
  major :: string
  minor :: string
  patch :: string

record MatchResult =
  matches :: bool
  targetVersion :: "string option"

text \<open>\<^verbatim>\<open>parts[i] || "0"\<close>: a missing or empty component reads as \<open>"0"\<close>.\<close>

definition partOrZero :: "string list \<Rightarrow> nat \<Rightarrow> string" where
  "partOrZero parts i = (if i < length parts \<and> parts ! i \<noteq> [] then parts ! i else ''0'')"

definition parseVersion :: "string \<Rightarrow> ParsedVersion" where
  "parseVersion version =
     (let normalized = stripV version;
          parts = splitStr (CHR ''.'') normalized
      in \<lparr> major = partOrZero parts 0, minor = partOrZero parts 1, patch = partOrZero parts 2 \<rparr>)"

text \<open>
  Arithmetic on numbers that may be NaN: \<^verbatim>\<open>a !== b\<close> is true as soon as one side
  is NaN, \<^verbatim>\<open>a - b\<close> is NaN then, and every comparison with NaN is false.
\<close>

definition numNotEq :: "int option \<Rightarrow> int option \<Rightarrow> bool" where
  "numNotEq a b = (case (a, b) of (Some x, Some y) \<Rightarrow> x \<noteq> y | _ \<Rightarrow> True)"

definition numMinus :: "int option \<Rightarrow> int option \<Rightarrow> int option" where
  "numMinus a b = (case (a, b) of (Some x, Some y) \<Rightarrow> Some (x - y) | _ \<Rightarrow> None)"

definition compareVersions :: "ParsedVersion \<Rightarrow> ParsedVersion \<Rightarrow> int option" where
  "compareVersions v1 v2 =
     (let major1 = parseInt (major v1); major2 = parseInt (major v2) in
      if numNotEq major1 major2 then numMinus major1 major2
      else
        let minor1 = parseInt (minor v1); minor2 = parseInt (minor v2) in
        if numNotEq minor1 minor2 then numMinus minor1 minor2
        else
          let patch1 = parseInt (patch v1); patch2 = parseInt (patch v2) in
          numMinus patch1 patch2)"

text \<open>\<^verbatim>\<open>/^(>=|<=|>|<|=)/.test(version)\<close>\<close>

definition operators :: "string list" where
  "operators = [''>='', ''<='', ''>'', ''<'', ''='']"

definition hasComparisonOperator :: "string \<Rightarrow> bool" where
  "hasComparisonOperator version = list_ex (startsWith version) operators"

text \<open>
  \<^verbatim>\<open>required.match(/^(>=|<=|>|<|=)(.+)$/)\<close>: the alternatives are tried in order, and
  one is taken when the rest of the string is not empty and has no line terminator
  (\<open>.\<close> matches none, and \<open>$\<close> is the end of the string).
\<close>

definition dotPlusToEnd :: "string \<Rightarrow> bool" where
  "dotPlusToEnd r = (r \<noteq> [] \<and> list_all (\<lambda>c. \<not> isLineTerminator c) r)"

definition operatorMatch :: "string \<Rightarrow> (string \<times> string) option" where
  "operatorMatch required =
     map_option (\<lambda>operator. (operator, drop (length operator) required))
       (find (\<lambda>operator. startsWith required operator \<and>
                dotPlusToEnd (drop (length operator) required)) operators)"

definition compareVersionWithOperator :: "string \<Rightarrow> string \<Rightarrow> bool" where
  "compareVersionWithOperator current required =
     (case operatorMatch required of
        None \<Rightarrow> False
      | Some (operator, targetVer) \<Rightarrow>
          let currentParsed = parseVersion current;
              targetParsed = parseVersion targetVer;
              comparison = compareVersions currentParsed targetParsed
          in (case comparison of
                None \<Rightarrow> False
              | Some c \<Rightarrow>
                  (if operator = ''>='' then c \<ge> 0
                   else if operator = ''<='' then c \<le> 0
                   else if operator = ''>'' then c > 0
                   else if operator = ''<'' then c < 0
                   else if operator = ''='' then c = 0
                   else False)))"

definition matchSemverRange :: "string \<Rightarrow> string \<Rightarrow> bool" where
  "matchSemverRange current rng =
     (let currentParsed = parseVersion current in
      if startsWith rng ''^'' then
        let targetVer = drop 1 rng;
            targetParsed = parseVersion targetVer
        in major currentParsed = major targetParsed \<and>
           (case compareVersions currentParsed targetParsed of None \<Rightarrow> False | Some c \<Rightarrow> c \<ge> 0)
      else if startsWith rng ''~'' then
        let targetVer = drop 1 rng;
            targetParsed = parseVersion targetVer
        in major currentParsed = major targetParsed \<and>
           minor currentParsed = minor targetParsed \<and>
           strGreaterEq (patch currentParsed) (patch targetParsed)
      else False)"

definition isPartialVersionMatch :: "string \<Rightarrow> string \<Rightarrow> bool" where
  "isPartialVersionMatch fullVersion partialVersion =
     (let fullParts = parseVersion fullVersion;
          partialParts = splitStr (CHR ''.'') partialVersion;
          normalizedPartial = \<lparr> major = partOrZero partialParts 0,
                                minor = partOrZero partialParts 1,
                                patch = partOrZero partialParts 2 \<rparr>
      in if length partialParts = 1 then major fullParts = major normalizedPartial
         else if length partialParts = 2 then
           major fullParts = major normalizedPartial \<and>
           minor fullParts = minor normalizedPartial
         else
           major fullParts = major normalizedPartial \<and>
           minor fullParts = minor normalizedPartial \<and>
           patch fullParts = patch normalizedPartial)"

text \<open>
  The function that \<open>isVersionMatch\<close> hands to the cache: the comparison itself.
\<close>

definition computeVersionMatch :: "string \<Rightarrow> string \<Rightarrow> MatchResult" where
  "computeVersionMatch current required =
     (let normalizeCurrent = stripV current;
          normalizeRequired = stripV required
      in if normalizeCurrent = normalizeRequired then
           \<lparr> matches = True, targetVersion = Some normalizeCurrent \<rparr>
         else if hasComparisonOperator normalizeRequired then
           let m = compareVersionWithOperator normalizeCurrent normalizeRequired
           in \<lparr> matches = m, targetVersion = (if m then Some normalizeCurrent else None) \<rparr>
         else if startsWith normalizeRequired ''^'' \<or> startsWith normalizeRequired ''~'' then
           let m = matchSemverRange normalizeCurrent normalizeRequired
           in \<lparr> matches = m, targetVersion = (if m then Some normalizeCurrent else None) \<rparr>
         else
           let requiredParts = splitStr (CHR ''.'') normalizeRequired in
           if length requiredParts < 3 then
             \<lparr> matches = isPartialVersionMatch normalizeCurrent normalizeRequired,
               targetVersion = Some normalizeRequired \<rparr>
           else \<lparr> matches = False, targetVersion = None \<rparr>)"

section \<open>The cache manager\<close>

text \<open>
  A value thrown by a function: an \<open>Error\<close> object with its message, or any other
  value. A function that may throw returns \<open>exception + 'a\<close>.
\<close>

datatype exception = Error string | NonError

text \<open>
  A cache entry holds a value of any type; \<open>None\<close> is the value \<open>null\<close>. The store
  of the one cache manager is a map from a namespace to a map from a key to an entry.
  The program stores values of several types in it; the model keeps one store for each
  type of value, so that a read at type \<open>T\<close> yields a \<open>T\<close> or \<open>null\<close>. The keys
  of values of different types never coincide: within a namespace they begin with
  different words.
\<close>

record 'v CacheEntry =
  entryValue :: "'v option"
  timestamp :: int
  ttl :: int

type_synonym 'v caches = "string \<rightharpoonup> (string \<rightharpoonup> 'v CacheEntry)"

text \<open>
  How the cache manager reaches its store and the clock (\<^verbatim>\<open>Date.now()\<close>, in
  milliseconds) inside a program state \<open>'s\<close>.
\<close>

record ('s, 'v) cacheAccess =
  getCaches :: "'s \<Rightarrow> 'v caches"
  putCaches :: "'v caches \<Rightarrow> 's \<Rightarrow> 's"
  dateNow :: "'s \<Rightarrow> int"

definition defaultTTL :: int where
  "defaultTTL = 5 * 60 * 1000"

text \<open>\<open>set(namespace, key, value, ttl)\<close>; \<^verbatim>\<open>ttl || this.defaultTTL\<close> takes the default
  for a missing and for a zero ttl.\<close>

definition ttlOrDefault :: "int option \<Rightarrow> int" where
  "ttlOrDefault ttlArg = (case ttlArg of None \<Rightarrow> defaultTTL
                          | Some t \<Rightarrow> if t = 0 then defaultTTL else t)"

definition setEntry ::
  "('s, 'v) cacheAccess \<Rightarrow> string \<Rightarrow> string \<Rightarrow> 'v option \<Rightarrow> int option \<Rightarrow> 's \<Rightarrow> 's" where
  "setEntry A namespace key v ttlArg s =
     (let cs = getCaches A s;
          cache = (case cs namespace of None \<Rightarrow> Map.empty | Some c \<Rightarrow> c);
          entry = \<lparr> entryValue = v, timestamp = dateNow A s, ttl = ttlOrDefault ttlArg \<rparr>
      in putCaches A (cs(namespace \<mapsto> cache(key \<mapsto> entry))) s)"

text \<open>\<open>get(namespace, key)\<close>: an expired entry is deleted and reads as \<open>null\<close>.\<close>

definition get ::
  "('s, 'v) cacheAccess \<Rightarrow> string \<Rightarrow> string \<Rightarrow> 's \<Rightarrow> 'v option \<times> 's" where
  "get A namespace key s =
     (case getCaches A s namespace of
        None \<Rightarrow> (None, s)
      | Some cache \<Rightarrow>
          (case cache key of
             None \<Rightarrow> (None, s)
           | Some entry \<Rightarrow>
               if dateNow A s - timestamp entry > ttl entry
               then (None, putCaches A ((getCaches A s)(namespace \<mapsto> cache(key := None))) s)
               else (entryValue entry, s)))"

text \<open>
  \<open>cached(namespace, key, fn, ttl)\<close>. The function \<open>fn\<close> runs on the program
  state and may change it; when it throws, the \<open>await\<close> throws and \<open>set\<close> is not
  reached.
\<close>

definition cached ::
  "('s, 'v) cacheAccess \<Rightarrow> string \<Rightarrow> string \<Rightarrow> ('s \<Rightarrow> (exception + 'v option) \<times> 's) \<Rightarrow>
     int option \<Rightarrow> 's \<Rightarrow> (exception + 'v option) \<times> 's" where
  "cached A namespace key fn ttlArg s =
     (case get A namespace key s of
        (Some v, s1) \<Rightarrow> (Inr (Some v), s1)
      | (None, s1) \<Rightarrow>
          (case fn s1 of
             (Inl e, s2) \<Rightarrow> (Inl e, s2)
           | (Inr result, s2) \<Rightarrow> (Inr result, setEntry A namespace key result ttlArg s2)))"

text \<open>The namespaces.\<close>

definition ENVIRONMENT_DETECTION :: string where
  "ENVIRONMENT_DETECTION = ''env_detection''"

definition CONFIG_FILES :: string where
  "CONFIG_FILES = ''config_files''"

definition NODE_VERSIONS :: string where
  "NODE_VERSIONS = ''node_versions''"

definition MANAGER_DETECTION :: string where
  "MANAGER_DETECTION = ''manager_detection''"

section \<open>The state of the program\<close>

datatype NodeManagerType = Nvm | N | Unknown

record ManagerDetectionResult =
  managerType :: NodeManagerType
  available :: bool
  toolVersion :: "string option"
  toolPath :: "string option"
  errorText :: "string option"

record PackageConfig =
  engines :: "string option"
  volta :: "string option"

record ProjectVersion =
  configVersion :: string
  configSource :: string

text \<open>
  The state: the store of the cache manager by type of value, the clock, and the
  commands spawned so far, oldest first.
\<close>

record State =
  matchCache :: "MatchResult caches"
  descriptorCache :: "ManagerDetectionResult caches"
  aggregateCache :: "ManagerDetectionResult list caches"
  fileCache :: "string caches"
  packageCache :: "PackageConfig caches"
  projectCache :: "ProjectVersion caches"
  clock :: int
  spawned :: "(string \<times> string list) list"

definition matchAccess :: "(State, MatchResult) cacheAccess" where
  "matchAccess = \<lparr> getCaches = matchCache, putCaches = (\<lambda>c s. s\<lparr>matchCache := c\<rparr>),
                    dateNow = clock \<rparr>"

definition descriptorAccess :: "(State, ManagerDetectionResult) cacheAccess" where
  "descriptorAccess = \<lparr> getCaches = descriptorCache,
                         putCaches = (\<lambda>c s. s\<lparr>descriptorCache := c\<rparr>), dateNow = clock \<rparr>"

definition aggregateAccess :: "(State, ManagerDetectionResult list) cacheAccess" where
  "aggregateAccess = \<lparr> getCaches = aggregateCache,
                        putCaches = (\<lambda>c s. s\<lparr>aggregateCache := c\<rparr>), dateNow = clock \<rparr>"

definition fileAccess :: "(State, string) cacheAccess" where
  "fileAccess = \<lparr> getCaches = fileCache, putCaches = (\<lambda>c s. s\<lparr>fileCache := c\<rparr>),
                   dateNow = clock \<rparr>"



text \<open>A state with nothing cached, at time \<open>t\<close>.\<close>

definition emptyState :: "int \<Rightarrow> State" where
  "emptyState t = \<lparr> matchCache = Map.empty, descriptorCache = Map.empty,
                     aggregateCache = Map.empty, fileCache = Map.empty,
                     packageCache = Map.empty, projectCache = Map.empty,
                     clock = t, spawned = [] \<rparr>"

text \<open>
  \<open>isVersionMatch(current, required)\<close>: the comparison, read through the cache
  under a key made of both strings, for two minutes.
\<close>

definition matchKey :: "string \<Rightarrow> string \<Rightarrow> string" where
  "matchKey current required = ''version_match_'' @ current @ ''_'' @ required"

definition isVersionMatch ::
  "string \<Rightarrow> string \<Rightarrow> State \<Rightarrow> (exception + MatchResult option) \<times> State" where
  "isVersionMatch current required s =
     (let cacheKey = matchKey current required
      in cached matchAccess NODE_VERSIONS cacheKey
           (\<lambda>s'. (Inr (Some (computeVersionMatch current required)), s'))
           (Some (2 * 60 * 1000)) s)"

section \<open>The configuration reader (ConfigReaderService)\<close>



text \<open>\<^verbatim>\<open>s.trim()\<close>\<close>

definition trim :: "string \<Rightarrow> string" where
  "trim s = rev (dropWhile isWhiteSpace (rev (dropWhile isWhiteSpace s)))"








text \<open>
  \<open>readPackageJson\<close>: the two fields of the manifest, each kept when it is there
  and not empty; \<open>null\<close> when neither is, or when the file is missing or does not
  parse. Read through the cache for thirty seconds.
\<close>

text \<open>
  The string that passes a test \<^verbatim>\<open>if (x)\<close>: an \<open>undefined\<close> or \<open>null\<close> value
  and the empty string do not pass.
\<close>

definition truthyValue :: "string option \<Rightarrow> string option" where
  "truthyValue x = (case x of None \<Rightarrow> None | Some t \<Rightarrow> if t = [] then None else Some t)"










section \<open>The environment detector (EnvironmentDetector)\<close>

text \<open>
  The platform is a parameter of the model: what \<open>PlatformUtils\<close> reports, the
  environment variables the detector reads, and \<open>spawn\<close>. \<open>spawn command args t\<close>
  is what becomes of a process started at time \<open>t\<close>, and the time it takes: the
  process closes with an exit code (\<open>null\<close> when a signal ended it) and its two
  outputs, or it emits an error with the outputs so far, or \<open>spawn\<close> itself throws.
  \<open>appDataNvm\<close> is \<^verbatim>\<open>path.join(os.homedir(), "AppData", "Roaming", "nvm")\<close>, which
  throws when \<open>os.homedir()\<close> does. \<open>performanceAnalyzer.measure(name, fn)\<close> is
  taken to return what \<open>fn\<close> returns and to throw what it throws.
\<close>

datatype processOutcome =
    Closed "int option" string string
  | ErrorEvent string string string

record CommandResult =
  success :: bool
  stdout :: string
  stderr :: string
  exitCode :: int

record Platform =
  isWindows :: bool
  nvmDir :: string
  envNvmHome :: "string option"
  envNvmSymlink :: "string option"
  appDataNvm :: "exception + string"
  shellCommand :: "string \<times> string list"
  spawn :: "string \<Rightarrow> string list \<Rightarrow> int \<Rightarrow> (exception + processOutcome) \<times> nat"

text \<open>The result that the promise of \<open>executeCommand\<close> resolves to.\<close>

definition resolved :: "processOutcome \<Rightarrow> CommandResult" where
  "resolved outcome =
     (case outcome of
        Closed exit out err \<Rightarrow>
          \<lparr> success = ((case exit of None \<Rightarrow> 0 | Some n \<Rightarrow> n) = 0),
            stdout = trim out, stderr = trim err,
            exitCode = (case exit of None \<Rightarrow> 0 | Some n \<Rightarrow> n) \<rparr>
      | ErrorEvent out err msg \<Rightarrow>
          \<lparr> success = False, stdout = out, stderr = err @ [char_of (10::nat)] @ msg,
            exitCode = - 1 \<rparr>)"

definition runProcess ::
  "Platform \<Rightarrow> string \<Rightarrow> string list \<Rightarrow> State \<Rightarrow> (exception + CommandResult) \<times> State" where
  "runProcess P command args s =
     (case spawn P command args (clock s) of
        (r, elapsed) \<Rightarrow>
          (case r of Inl e \<Rightarrow> Inl e | Inr outcome \<Rightarrow> Inr (resolved outcome),
           s\<lparr>clock := clock s + int elapsed, spawned := spawned s @ [(command, args)]\<rparr>))"

definition executeCommand ::
  "Platform \<Rightarrow> string \<Rightarrow> string list \<Rightarrow> State \<Rightarrow> (exception + CommandResult) \<times> State" where
  "executeCommand P command args s = runProcess P command args s"

definition executeShellCommand ::
  "Platform \<Rightarrow> string \<Rightarrow> State \<Rightarrow> (exception + CommandResult) \<times> State" where
  "executeShellCommand P command s =
     (let shellConfig = shellCommand P
      in runProcess P (fst shellConfig) (snd shellConfig @ [command]) s)"

definition cacheExpiry :: int where
  "cacheExpiry = 5 * 60 * 1000"

text \<open>\<^verbatim>\<open>error instanceof Error ? error.message : "Unknown error"\<close>\<close>

definition errorMessage :: "exception \<Rightarrow> string" where
  "errorMessage e = (case e of Error m \<Rightarrow> m | NonError \<Rightarrow> ''Unknown error'')"

text \<open>
  \<^verbatim>\<open>process.env.NVM_HOME || process.env.NVM_SYMLINK || path.join(...) || nvmDir\<close>
\<close>

definition windowsNvmPath :: "Platform \<Rightarrow> exception + string" where
  "windowsNvmPath P =
     (case truthyValue (envNvmHome P) of
        Some home \<Rightarrow> Inr home
      | None \<Rightarrow>
          (case truthyValue (envNvmSymlink P) of
             Some link \<Rightarrow> Inr link
           | None \<Rightarrow>
               (case appDataNvm P of
                  Inl e \<Rightarrow> Inl e
                | Inr joined \<Rightarrow> Inr (if joined \<noteq> [] then joined else nvmDir P))))"

definition sourceNvm :: "Platform \<Rightarrow> string" where
  "sourceNvm P = ''source '' @ nvmDir P @ ''/nvm.sh && nvm --version''"

text \<open>
  The \<open>try\<close> block of \<open>detectNVM\<close>. It changes the fields of \<open>result\<close> as it
  goes; the model returns the result as it stands when the block ends, together with
  the exception when the block ends by one.
\<close>

definition detectNVMTry ::
  "Platform \<Rightarrow> ManagerDetectionResult \<Rightarrow> State \<Rightarrow>
     (exception option \<times> ManagerDetectionResult) \<times> State" where
  "detectNVMTry P result s =
     (if isWindows P then
        (case executeCommand P ''nvm'' [''version''] s of
           (Inl e, s1) \<Rightarrow> ((Some e, result), s1)
         | (Inr nvmCommand, s1) \<Rightarrow>
             if success nvmCommand then
               (let result1 = result\<lparr>available := True,
                                    toolVersion := Some (trim (stdout nvmCommand))\<rparr>
                in case windowsNvmPath P of
                     Inl e \<Rightarrow> ((Some e, result1), s1)
                   | Inr p \<Rightarrow> ((None, result1\<lparr>toolPath := Some p\<rparr>), s1))
             else
               ((None, result\<lparr>errorText :=
                   Some ''nvm-windows not found or not properly configured''\<rparr>), s1))
      else
        (case executeCommand P ''nvm'' [''--version''] s of
           (Inl e, s1) \<Rightarrow> ((Some e, result), s1)
         | (Inr nvmCommand, s1) \<Rightarrow>
             if success nvmCommand then
               ((None, result\<lparr>available := True,
                              toolVersion := Some (trim (stdout nvmCommand)),
                              toolPath := Some (nvmDir P)\<rparr>), s1)
             else
               (case executeShellCommand P (sourceNvm P) s1 of
                  (Inl e, s2) \<Rightarrow> ((Some e, result), s2)
                | (Inr sourceResult, s2) \<Rightarrow>
                    if success sourceResult then
                      ((None, result\<lparr>available := True,
                                     toolVersion := Some (trim (stdout sourceResult)),
                                     toolPath := Some (nvmDir P)\<rparr>), s2)
                    else
                      ((None, result\<lparr>errorText :=
                          Some ''NVM not found or not properly configured''\<rparr>), s2))))"

text \<open>The \<open>catch\<close> block, the same in both probes, and the function handed to the cache.\<close>

definition caught ::
  "(exception option \<times> ManagerDetectionResult) \<times> State \<Rightarrow>
     (exception + ManagerDetectionResult option) \<times> State" where
  "caught r =
     (case r of
        ((None, result), s) \<Rightarrow> (Inr (Some result), s)
      | ((Some e, result), s) \<Rightarrow> (Inr (Some (result\<lparr>errorText := Some (errorMessage e)\<rparr>)), s))"

definition detectNVMProducer ::
  "Platform \<Rightarrow> State \<Rightarrow> (exception + ManagerDetectionResult option) \<times> State" where
  "detectNVMProducer P s =
     (let result = \<lparr> managerType = Nvm, available = False, toolVersion = None,
                     toolPath = None, errorText = None \<rparr>
      in caught (detectNVMTry P result s))"

definition nvmKey :: "Platform \<Rightarrow> string" where
  "nvmKey P = ''nvm_'' @ (if isWindows P then ''windows'' else ''unix'')"

definition detectNVM ::
  "Platform \<Rightarrow> State \<Rightarrow> (exception + ManagerDetectionResult option) \<times> State" where
  "detectNVM P s =
     cached descriptorAccess MANAGER_DETECTION (nvmKey P) (detectNVMProducer P)
       (Some cacheExpiry) s"

definition detectNTry ::
  "Platform \<Rightarrow> ManagerDetectionResult \<Rightarrow> State \<Rightarrow>
     (exception option \<times> ManagerDetectionResult) \<times> State" where
  "detectNTry P result s =
     (case executeCommand P ''n'' [''--version''] s of
        (Inl e, s1) \<Rightarrow> ((Some e, result), s1)
      | (Inr nCommand, s1) \<Rightarrow>
          if success nCommand then
            (let result1 = result\<lparr>available := True,
                                 toolVersion := Some (trim (stdout nCommand))\<rparr>;
                 whichCommand = (if isWindows P then ''where'' else ''which'')
             in case executeCommand P whichCommand [''n''] s1 of
                  (Inl e, s2) \<Rightarrow> ((Some e, result1), s2)
                | (Inr whichResult, s2) \<Rightarrow>
                    if success whichResult
                    then ((None, result1\<lparr>toolPath := Some (trim (stdout whichResult))\<rparr>), s2)
                    else ((None, result1), s2))
          else ((None, result\<lparr>errorText := Some ''N version manager not found''\<rparr>), s1))"

definition detectNProducer ::
  "Platform \<Rightarrow> State \<Rightarrow> (exception + ManagerDetectionResult option) \<times> State" where
  "detectNProducer P s =
     (let result = \<lparr> managerType = N, available = False, toolVersion = None,
                     toolPath = None, errorText = None \<rparr>
      in caught (detectNTry P result s))"

definition detectN ::
  "Platform \<Rightarrow> State \<Rightarrow> (exception + ManagerDetectionResult option) \<times> State" where
  "detectN P s =
     cached descriptorAccess MANAGER_DETECTION ''n_manager'' (detectNProducer P)
       (Some cacheExpiry) s"

text \<open>
  \<open>detectAllManagers\<close>. An array is truthy, so a cached list is returned whatever it
  holds. The two probes always return a descriptor (lemmas \<open>detectNVM_descriptor\<close>
  and \<open>detectN_descriptor\<close> below); the model gives the case of a \<open>null\<close> the
  TypeError of the read of \<open>available\<close>.
\<close>

definition allManagersKey :: string where
  "allManagersKey = ''all_managers''"

definition nullDescriptor :: exception where
  "nullDescriptor = Error ''Cannot read properties of null''"

definition detectAllManagers ::
  "Platform \<Rightarrow> State \<Rightarrow> (exception + ManagerDetectionResult list) \<times> State" where
  "detectAllManagers P s =
     (let cacheKey = allManagersKey in
      case get aggregateAccess ENVIRONMENT_DETECTION cacheKey s of
        (Some cachedResults, s0) \<Rightarrow> (Inr cachedResults, s0)
      | (None, s0) \<Rightarrow>
          (case detectNVM P s0 of
             (Inl e, s1) \<Rightarrow> (Inl e, s1)
           | (Inr None, s1) \<Rightarrow> (Inl nullDescriptor, s1)
           | (Inr (Some nvmResult), s1) \<Rightarrow>
               if available nvmResult then
                 (Inr [nvmResult],
                  setEntry aggregateAccess ENVIRONMENT_DETECTION cacheKey (Some [nvmResult])
                    (Some cacheExpiry) s1)
               else
                 (case detectN P s1 of
                    (Inl e, s2) \<Rightarrow> (Inl e, s2)
                  | (Inr None, s2) \<Rightarrow> (Inl nullDescriptor, s2)
                  | (Inr (Some nResult), s2) \<Rightarrow>
                      (Inr [nvmResult, nResult],
                       setEntry aggregateAccess ENVIRONMENT_DETECTION cacheKey
                         (Some [nvmResult, nResult]) (Some cacheExpiry) s2))))"

section \<open>The words of the specification\<close>

text \<open>
  The fifth rule of the matcher applies to a required version, its leading \<open>v\<close>
  removed, that the rules for the comparison operators and for the ranges leave
  alone and that has fewer than three components: a partial pin.
\<close>

definition isPartialPin :: "string \<Rightarrow> bool" where
  "isPartialPin spec =
     (\<not> hasComparisonOperator spec \<and> \<not> startsWith spec ''^'' \<and> \<not> startsWith spec ''~'' \<and>
      length (splitStr (CHR ''.'') spec) < 3)"

text \<open>The component of a parsed version at a position.\<close>

definition component :: "ParsedVersion \<Rightarrow> nat \<Rightarrow> string" where
  "component v i = (if i = 0 then major v else if i = 1 then minor v else patch v)"

text \<open>
  Every given component of the required version equals the corresponding component
  of the current version: the components of the required version are the pieces
  between its dots, those of the current version are the ones \<open>parseVersion\<close> reads.
\<close>

definition givenComponentsEqual :: "string \<Rightarrow> string \<Rightarrow> bool" where
  "givenComponentsEqual current spec =
     (let given = splitStr (CHR ''.'') spec; cur = parseVersion current
      in list_all (\<lambda>i. given ! i = component cur i) [0..<length given])"

text \<open>The same, with an empty component of the required version read as \<open>"0"\<close>.\<close>

definition givenComponentsEqualOrZero :: "string \<Rightarrow> string \<Rightarrow> bool" where
  "givenComponentsEqualOrZero current spec =
     (let given = splitStr (CHR ''.'') spec; cur = parseVersion current
      in list_all (\<lambda>i. partOrZero given i = component cur i) [0..<length given])"




text \<open>
  The store and the clock are independent parts of the state: writing the store and
  reading it back gives what was written, and leaves the clock alone.
\<close>

definition validAccess :: "('s, 'v) cacheAccess \<Rightarrow> bool" where
  "validAccess A =
     ((\<forall>c s. getCaches A (putCaches A c s) = c) \<and>
      (\<forall>c s. dateNow A (putCaches A c s) = dateNow A s))"

text \<open>The entry that the store holds under a namespace and a key, expired or not.\<close>

definition lookupEntry :: "('s, 'v) cacheAccess \<Rightarrow> string \<Rightarrow> string \<Rightarrow> 's \<Rightarrow> 'v CacheEntry option" where
  "lookupEntry A namespace key s =
     (case getCaches A s namespace of None \<Rightarrow> None | Some cache \<Rightarrow> cache key)"

text \<open>
  What a call of \<open>cached\<close> returns when it runs the producer on the state that the
  lookup leaves: the producer's failure, or its result, stored.
\<close>

definition producerRun ::
  "('s, 'v) cacheAccess \<Rightarrow> string \<Rightarrow> string \<Rightarrow> ('s \<Rightarrow> (exception + 'v option) \<times> 's) \<Rightarrow>
     int option \<Rightarrow> 's \<Rightarrow> (exception + 'v option) \<times> 's" where
  "producerRun A namespace key fn ttlArg s =
     (case fn s of
        (Inl e, s') \<Rightarrow> (Inl e, s')
      | (Inr result, s') \<Rightarrow> (Inr result, setEntry A namespace key result ttlArg s'))"

text \<open>
  A producer that returns \<open>r\<close> and leaves a trace of its run in the state, for
  counting the runs.
\<close>

definition loggingProducer ::
  "(exception + 'v option) \<Rightarrow> State \<Rightarrow> (exception + 'v option) \<times> State" where
  "loggingProducer r s = (r, s\<lparr>spawned := spawned s @ [(''producer'', [])]\<rparr>)"











text \<open>
  The commands that the probe of nvm can start, and the descriptor of a probe that
  ended by the exception \<open>e\<close> before any field was set.
\<close>

definition nvmCommands :: "Platform \<Rightarrow> (string \<times> string list) list" where
  "nvmCommands P =
     [(''nvm'', [''version'']), (''nvm'', [''--version'']),
      (fst (shellCommand P), snd (shellCommand P) @ [sourceNvm P])]"

definition failedDescriptor :: "NodeManagerType \<Rightarrow> exception \<Rightarrow> ManagerDetectionResult" where
  "failedDescriptor kind e =
     \<lparr> managerType = kind, available = False, toolVersion = None, toolPath = None,
       errorText = Some (errorMessage e) \<rparr>"

text \<open>
  A probe raises \<open>e\<close>: the run of the version command of the manager throws it. For
  nvm on a Unix system the probe is the direct run and, when that one reports a
  failure, the run through the shell.
\<close>

definition nvmProbeRaises :: "Platform \<Rightarrow> State \<Rightarrow> exception \<Rightarrow> bool" where
  "nvmProbeRaises P s e =
     (if isWindows P then fst (executeCommand P ''nvm'' [''version''] s) = Inl e
      else (case executeCommand P ''nvm'' [''--version''] s of
              (Inl x, s1) \<Rightarrow> x = e
            | (Inr nvmCommand, s1) \<Rightarrow>
                \<not> success nvmCommand \<and>
                fst (executeShellCommand P (sourceNvm P) s1) = Inl e))"

definition nProbeRaises :: "Platform \<Rightarrow> State \<Rightarrow> exception \<Rightarrow> bool" where
  "nProbeRaises P s e = (fst (executeCommand P ''n'' [''--version''] s) = Inl e)"

text \<open>The version command of the manager runs and reports success.\<close>

definition nvmVersionSucceeds :: "Platform \<Rightarrow> State \<Rightarrow> bool" where
  "nvmVersionSucceeds P s =
     (if isWindows P then
        (case fst (executeCommand P ''nvm'' [''version''] s) of
           Inl e \<Rightarrow> False | Inr nvmCommand \<Rightarrow> success nvmCommand)
      else (case executeCommand P ''nvm'' [''--version''] s of
              (Inl e, s1) \<Rightarrow> False
            | (Inr nvmCommand, s1) \<Rightarrow>
                success nvmCommand \<or>
                (case fst (executeShellCommand P (sourceNvm P) s1) of
                   Inl e \<Rightarrow> False | Inr sourceResult \<Rightarrow> success sourceResult)))"

definition nVersionSucceeds :: "Platform \<Rightarrow> State \<Rightarrow> bool" where
  "nVersionSucceeds P s =
     (case fst (executeCommand P ''n'' [''--version''] s) of
        Inl e \<Rightarrow> False | Inr nCommand \<Rightarrow> success nCommand)"

text \<open>
  A Unix platform with a given \<open>spawn\<close>, and three ways for \<open>spawn\<close> to
  behave: every command succeeds, every command exits with 127, every \<open>spawn\<close>
  throws.
\<close>

definition unixPlatform ::
  "(string \<Rightarrow> string list \<Rightarrow> int \<Rightarrow> (exception + processOutcome) \<times> nat) \<Rightarrow> Platform" where
  "unixPlatform sp =
     \<lparr> isWindows = False, nvmDir = ''/home/u/.nvm'', envNvmHome = None, envNvmSymlink = None,
       appDataNvm = Inr ''/home/u/AppData/Roaming/nvm'',
       shellCommand = (''/bin/bash'', [''-c'']), spawn = sp \<rparr>"

definition allSucceed :: "string \<Rightarrow> string list \<Rightarrow> int \<Rightarrow> (exception + processOutcome) \<times> nat" where
  "allSucceed command args t = (Inr (Closed (Some 0) ''0.39.7'' []), 40)"

definition allFail :: "string \<Rightarrow> string list \<Rightarrow> int \<Rightarrow> (exception + processOutcome) \<times> nat" where
  "allFail command args t = (Inr (Closed (Some 127) [] ''command not found''), 40)"

definition allThrow :: "string \<Rightarrow> string list \<Rightarrow> int \<Rightarrow> (exception + processOutcome) \<times> nat" where
  "allThrow command args t = (Inl (Error ''spawn EAGAIN''), 0)"

text \<open>The command \<open>n\<close> succeeds, and \<open>spawn\<close> throws for every other command.\<close>

definition onlyNRuns :: "string \<Rightarrow> string list \<Rightarrow> int \<Rightarrow> (exception + processOutcome) \<times> nat" where
  "onlyNRuns command args t =
     (if command = ''n'' then (Inr (Closed (Some 0) ''9.2.1'' []), 40)
      else (Inl (Error ''spawn ENOMEM''), 0))"

text \<open>The descriptor that a probe starts from.\<close>

definition initialDescriptor :: "NodeManagerType \<Rightarrow> ManagerDetectionResult" where
  "initialDescriptor kind =
     \<lparr> managerType = kind, available = False, toolVersion = None, toolPath = None,
       errorText = None \<rparr>"

section \<open>Properties of the version matcher\<close>

lemma splitStr_not_Nil: "splitStr d s \<noteq> []"
  by (induction s) (auto split: list.splits)

lemma isVersionMatch_miss:
  assumes "fst (get matchAccess NODE_VERSIONS (matchKey current required) s) = None"
  shows "fst (isVersionMatch current required s) = Inr (Some (computeVersionMatch current required))"
proof -
  obtain s1 where "get matchAccess NODE_VERSIONS (matchKey current required) s = (None, s1)"
    using assms by (cases "get matchAccess NODE_VERSIONS (matchKey current required) s") auto
  then show ?thesis
    by (simp add: isVersionMatch_def cached_def matchKey_def)
qed

lemma partial_length_cases:
  assumes "length (splitStr d s) < 3"
  shows "length (splitStr d s) = 1 \<or> length (splitStr d s) = 2"
proof -
  have "length (splitStr d s) \<noteq> 0" using splitStr_not_Nil [of d s] by simp
  with assms show ?thesis by arith
qed

lemma partial_match_iff:
  assumes "length (splitStr (CHR ''.'') spec) < 3"
  shows "isPartialVersionMatch current spec = givenComponentsEqualOrZero current spec"
proof -
  from partial_length_cases [OF assms] show ?thesis
  proof
    assume l: "length (splitStr (CHR ''.'') spec) = 1"
    then have u: "[0..<length (splitStr (CHR ''.'') spec)] = [0]" by simp
    show ?thesis
      unfolding isPartialVersionMatch_def givenComponentsEqualOrZero_def Let_def u
      using l by (auto simp add: component_def)
  next
    assume l: "length (splitStr (CHR ''.'') spec) = 2"
    then have u: "[0..<length (splitStr (CHR ''.'') spec)] = [0, 1]" by (simp add: upt_rec)
    show ?thesis
      unfolding isPartialVersionMatch_def givenComponentsEqualOrZero_def Let_def u
      using l by (auto simp add: component_def)
  qed
qed

text \<open>
  C1 (as amended). For a required version that is a partial pin, and with no result
  cached for the pair, \<open>isVersionMatch\<close> matches exactly when the two versions,
  their leading \<open>v\<close> removed, are the same string, or every component given in the
  required version, an empty one read as \<open>"0"\<close>, equals the corresponding component
  of the current version; components not given are not compared. The target version
  of the result is the required version without its leading \<open>v\<close>, not the current
  version.
\<close>

theorem partial_pin_match:
  assumes "fst (get matchAccess NODE_VERSIONS (matchKey current required) s) = None"
    and "isPartialPin (stripV required)"
  shows "fst (isVersionMatch current required s) =
     Inr (Some \<lparr> matches = (stripV current = stripV required \<or>
                     givenComponentsEqualOrZero (stripV current) (stripV required)),
                 targetVersion = Some (stripV required) \<rparr>)"
proof -
  have len: "length (splitStr (CHR ''.'') (stripV required)) < 3"
    using assms(2) by (simp add: isPartialPin_def)
  have "computeVersionMatch current required =
     \<lparr> matches = (stripV current = stripV required \<or>
                     givenComponentsEqualOrZero (stripV current) (stripV required)),
                 targetVersion = Some (stripV required) \<rparr>"
    using assms(2) len partial_match_iff [OF len, of "stripV current"]
    by (simp add: computeVersionMatch_def isPartialPin_def Let_def)
  with isVersionMatch_miss [OF assms(1)] show ?thesis by simp
qed

text \<open>The examples of the specification: \<open>"18"\<close> and \<open>"18.3"\<close> against \<open>"18.2.1"\<close>.\<close>

theorem partial_pin_match_witness:
  "fst (isVersionMatch ''18.2.1'' ''18'' (emptyState 0)) =
     Inr (Some \<lparr> matches = True, targetVersion = Some ''18'' \<rparr>) \<and>
   fst (isVersionMatch ''18.2.1'' ''18.3'' (emptyState 0)) =
     Inr (Some \<lparr> matches = False, targetVersion = Some ''18.3'' \<rparr>)"
proof -
  have m: "\<And>c r. fst (get matchAccess NODE_VERSIONS (matchKey c r) (emptyState 0)) = None"
    by (simp add: get_def matchAccess_def emptyState_def)
  have p1: "isPartialPin (stripV ''18'')" by code_simp
  have p2: "isPartialPin (stripV ''18.3'')" by code_simp
  have e1: "(stripV ''18.2.1'' = stripV ''18'' \<or>
             givenComponentsEqualOrZero (stripV ''18.2.1'') (stripV ''18'')) = True"
    by code_simp
  have e2: "(stripV ''18.2.1'' = stripV ''18.3'' \<or>
             givenComponentsEqualOrZero (stripV ''18.2.1'') (stripV ''18.3'')) = False"
    by code_simp
  have s1: "stripV ''18'' = ''18''" by code_simp
  have s2: "stripV ''18.3'' = ''18.3''" by code_simp
  have r1: "fst (isVersionMatch ''18.2.1'' ''18'' (emptyState 0)) =
     Inr (Some \<lparr> matches = True, targetVersion = Some ''18'' \<rparr>)"
    using partial_pin_match [OF m p1, of "''18.2.1''"] unfolding e1 unfolding s1 .
  have r2: "fst (isVersionMatch ''18.2.1'' ''18.3'' (emptyState 0)) =
     Inr (Some \<lparr> matches = False, targetVersion = Some ''18.3'' \<rparr>)"
    using partial_pin_match [OF m p2, of "''18.2.1''"] unfolding e2 unfolding s2 .
  from r1 r2 show ?thesis by (rule conjI)
qed

text \<open>
  The sentence of the specification, as it is written, fails for a required version
  with an empty component: the second component of \<open>"18."\<close> is empty, the current version \<open>"18.0.1"\<close> has
  \<open>"0"\<close> there and matches, and the current version \<open>"18.5.1"\<close> does not match, so
  the empty component is neither compared as it stands nor left out as not given.
\<close>

theorem partial_pin_counterexample:
  "fst (isVersionMatch ''18.0.1'' ''18.'' (emptyState 0)) =
     Inr (Some \<lparr> matches = True, targetVersion = Some ''18.'' \<rparr>) \<and>
   \<not> givenComponentsEqual ''18.0.1'' ''18.'' \<and>
   fst (isVersionMatch ''18.5.1'' ''18.'' (emptyState 0)) =
     Inr (Some \<lparr> matches = False, targetVersion = Some ''18.'' \<rparr>)"
  by code_simp

lemma computeVersionMatch_partial:
  assumes "isPartialPin (stripV required)"
  shows "computeVersionMatch current required =
     \<lparr> matches = (stripV current = stripV required \<or>
                     isPartialVersionMatch (stripV current) (stripV required)),
                 targetVersion = Some (stripV required) \<rparr>"
  using assms by (simp add: computeVersionMatch_def isPartialPin_def Let_def)

text \<open>
  C9. For a required version that is a partial pin (alias tokens such as \<open>"lts"\<close>
  are among them), and with no result cached for the pair, the target version of the
  result of \<open>isVersionMatch\<close> is the required version without its leading \<open>v\<close>,
  whether the versions match or not: a result that does not match can carry a target.
\<close>

theorem no_match_keeps_target:
  assumes "fst (get matchAccess NODE_VERSIONS (matchKey current required) s) = None"
    and "isPartialPin (stripV required)"
  shows "\<exists>m. fst (isVersionMatch current required s) =
     Inr (Some \<lparr> matches = m, targetVersion = Some (stripV required) \<rparr>)"
  using isVersionMatch_miss [OF assms(1)] computeVersionMatch_partial [OF assms(2), of current]
  by simp

text \<open>The two examples of the claim: neither matches, both carry the target.\<close>

theorem no_match_keeps_target_witness:
  "(\<exists>m. fst (isVersionMatch ''18.2.1'' ''18.3'' (emptyState 0)) =
       Inr (Some \<lparr> matches = m, targetVersion = Some ''18.3'' \<rparr>)) \<and>
   fst (isVersionMatch ''18.2.1'' ''18.3'' (emptyState 0)) =
       Inr (Some \<lparr> matches = False, targetVersion = Some ''18.3'' \<rparr>) \<and>
   fst (isVersionMatch ''18.17.0'' ''lts'' (emptyState 0)) =
       Inr (Some \<lparr> matches = False, targetVersion = Some ''lts'' \<rparr>)"
proof -
  have m: "fst (get matchAccess NODE_VERSIONS (matchKey ''18.2.1'' ''18.3'') (emptyState 0)) = None"
    by (simp add: get_def matchAccess_def emptyState_def)
  have p: "isPartialPin (stripV ''18.3'')" by code_simp
  have s: "stripV ''18.3'' = ''18.3''" by code_simp
  have a: "\<exists>m. fst (isVersionMatch ''18.2.1'' ''18.3'' (emptyState 0)) =
       Inr (Some \<lparr> matches = m, targetVersion = Some ''18.3'' \<rparr>)"
    using no_match_keeps_target [OF m p] unfolding s .
  have b: "fst (isVersionMatch ''18.2.1'' ''18.3'' (emptyState 0)) =
       Inr (Some \<lparr> matches = False, targetVersion = Some ''18.3'' \<rparr>)" by code_simp
  have c: "fst (isVersionMatch ''18.17.0'' ''lts'' (emptyState 0)) =
       Inr (Some \<lparr> matches = False, targetVersion = Some ''lts'' \<rparr>)" by code_simp
  from a b c show ?thesis by blast
qed












section \<open>Properties of the cache manager\<close>

lemma get_live:
  assumes "lookupEntry A ns key s = Some e" and "dateNow A s - timestamp e \<le> ttl e"
  shows "get A ns key s = (entryValue e, s)"
  using assms by (auto simp add: get_def lookupEntry_def split: option.splits)


lemma cached_miss:
  assumes "fst (get A ns key s) = None"
  shows "cached A ns key fn t s = producerRun A ns key fn t (snd (get A ns key s))"
proof -
  obtain s1 where g: "get A ns key s = (None, s1)"
    using assms by (cases "get A ns key s") auto
  show ?thesis unfolding cached_def producerRun_def g by simp
qed

lemma lookup_after_set:
  assumes "validAccess A"
  shows "lookupEntry A ns key (setEntry A ns key r t s) =
           Some \<lparr> entryValue = r, timestamp = dateNow A s, ttl = ttlOrDefault t \<rparr>"
  using assms by (simp add: lookupEntry_def setEntry_def validAccess_def Let_def)






lemma validAccess_file: "validAccess fileAccess"
  by (simp add: validAccess_def fileAccess_def)



text \<open>
  C10. When the lookup misses and the producer returns \<open>null\<close>, \<open>cached\<close> stores
  an entry holding \<open>null\<close> and returns \<open>null\<close>. In every state where that entry
  is there and has not expired, \<open>get\<close> returns \<open>null\<close> as for an absent entry, and
  \<open>cached\<close> runs the producer again.
\<close>

theorem null_result_not_cached:
  assumes "validAccess A"
  shows "(fst (get A ns key s) = None \<and> fn (snd (get A ns key s)) = (Inr None, s2) \<longrightarrow>
            cached A ns key fn t s = (Inr None, setEntry A ns key None t s2) \<and>
            lookupEntry A ns key (setEntry A ns key None t s2) =
              Some \<lparr> entryValue = None, timestamp = dateNow A s2, ttl = ttlOrDefault t \<rparr>) \<and>
         (lookupEntry A ns key s' = Some e \<and> entryValue e = None \<and>
          dateNow A s' - timestamp e \<le> ttl e \<longrightarrow>
            get A ns key s' = (None, s') \<and>
            cached A ns key fn' t' s' = producerRun A ns key fn' t' s')"
proof -
  have first: "cached A ns key fn t s = (Inr None, setEntry A ns key None t s2)"
    if "fst (get A ns key s) = None" "fn (snd (get A ns key s)) = (Inr None, s2)"
    using cached_miss [OF that(1), of fn t] that(2) by (simp add: producerRun_def)
  have later: "get A ns key s' = (None, s') \<and>
               cached A ns key fn' t' s' = producerRun A ns key fn' t' s'"
    if "lookupEntry A ns key s' = Some e" "entryValue e = None" "dateNow A s' - timestamp e \<le> ttl e"
  proof -
    have g: "get A ns key s' = (None, s')" using get_live [OF that(1,3)] that(2) by simp
    then show ?thesis using cached_miss [of A ns key s' fn' t'] by simp
  qed
  show ?thesis
    using first later lookup_after_set [OF assms, of ns key None t s2] by blast
qed

text \<open>
  A producer of \<open>null\<close> on the empty store: its result is stored, and a second
  call at the same time runs it a second time.
\<close>

theorem null_result_not_cached_witness:
  "cached fileAccess CONFIG_FILES ''k'' (loggingProducer (Inr None)) (Some 1000) (emptyState 0) =
     (Inr None, setEntry fileAccess CONFIG_FILES ''k'' None (Some 1000)
        ((emptyState 0)\<lparr>spawned := [(''producer'', [])]\<rparr>)) \<and>
   lookupEntry fileAccess CONFIG_FILES ''k''
     (setEntry fileAccess CONFIG_FILES ''k'' None (Some 1000)
        ((emptyState 0)\<lparr>spawned := [(''producer'', [])]\<rparr>)) =
     Some \<lparr> entryValue = None, timestamp = 0, ttl = 1000 \<rparr> \<and>
   cached fileAccess CONFIG_FILES ''k'' (loggingProducer (Inr None)) (Some 1000)
     (setEntry fileAccess CONFIG_FILES ''k'' None (Some 1000)
        ((emptyState 0)\<lparr>spawned := [(''producer'', [])]\<rparr>)) =
     producerRun fileAccess CONFIG_FILES ''k'' (loggingProducer (Inr None)) (Some 1000)
       (setEntry fileAccess CONFIG_FILES ''k'' None (Some 1000)
          ((emptyState 0)\<lparr>spawned := [(''producer'', [])]\<rparr>)) \<and>
   spawned (snd (producerRun fileAccess CONFIG_FILES ''k''
       (loggingProducer (Inr None :: exception + string option)) (Some 1000)
       (setEntry fileAccess CONFIG_FILES ''k'' None (Some 1000)
          ((emptyState 0)\<lparr>spawned := [(''producer'', [])]\<rparr>)))) =
     [(''producer'', []), (''producer'', [])]"
proof -
  let ?logged = "(emptyState 0)\<lparr>spawned := [(''producer'', [])]\<rparr>"
  let ?stored = "setEntry fileAccess CONFIG_FILES ''k'' (None :: string option) (Some 1000) ?logged"
  let ?e = "\<lparr> entryValue = None, timestamp = 0, ttl = 1000 \<rparr> :: string CacheEntry"
  note T = null_result_not_cached [OF validAccess_file]
  have g: "get fileAccess CONFIG_FILES ''k'' (emptyState 0) = (None, emptyState 0)"
    by (simp add: get_def fileAccess_def emptyState_def)
  have f: "loggingProducer (Inr None) (emptyState 0) = (Inr None :: exception + string option, ?logged)"
    by (simp add: loggingProducer_def emptyState_def)
  have t0: "dateNow fileAccess ?logged = 0" "ttlOrDefault (Some 1000) = 1000"
    by (simp_all add: fileAccess_def emptyState_def ttlOrDefault_def)
  have a: "cached fileAccess CONFIG_FILES ''k'' (loggingProducer (Inr None)) (Some 1000) (emptyState 0) =
             (Inr None, ?stored) \<and>
           lookupEntry fileAccess CONFIG_FILES ''k'' ?stored = Some ?e"
    using T [of CONFIG_FILES "''k''" "emptyState 0" "loggingProducer (Inr None)" ?logged "Some 1000"]
      g f t0 by simp
  have d: "entryValue ?e = None \<and> dateNow fileAccess ?stored - timestamp ?e \<le> ttl ?e"
    by (simp add: setEntry_def fileAccess_def emptyState_def)
  have b: "cached fileAccess CONFIG_FILES ''k'' (loggingProducer (Inr None)) (Some 1000) ?stored =
     producerRun fileAccess CONFIG_FILES ''k'' (loggingProducer (Inr None)) (Some 1000) ?stored"
    using T [of CONFIG_FILES "''k''" _ _ _ _ ?stored ?e "loggingProducer (Inr None)" "Some 1000"]
      a d by blast
  have c: "spawned (snd (producerRun fileAccess CONFIG_FILES ''k''
       (loggingProducer (Inr None :: exception + string option)) (Some 1000) ?stored)) =
     [(''producer'', []), (''producer'', [])]"
    by (simp add: producerRun_def loggingProducer_def setEntry_def fileAccess_def emptyState_def)
  from a b c show ?thesis by blast
qed

section \<open>Properties of the configuration reader\<close>




























section \<open>Properties of the environment detector\<close>

lemma cached_some:
  assumes "\<And>s1. \<exists>d s2. fn s1 = (Inr (Some d), s2)"
  shows "\<exists>d s'. cached A ns key fn t s = (Inr (Some d), s')"
proof (cases "get A ns key s")
  case (Pair hit s1)
  show ?thesis
  proof (cases hit)
    case None
    obtain d s2 where "fn s1 = (Inr (Some d), s2)" using assms by blast
    with Pair None show ?thesis by (simp add: cached_def)
  next
    case (Some v)
    with Pair show ?thesis by (simp add: cached_def)
  qed
qed

lemma caught_some: "\<exists>d s'. caught r = (Inr (Some d), s')"
  by (cases r) (auto simp add: caught_def split: option.splits)

lemma detectNVM_descriptor: "\<exists>d s'. detectNVM P s = (Inr (Some d), s')"
  unfolding detectNVM_def
  by (rule cached_some) (simp add: detectNVMProducer_def caught_some)

lemma detectN_descriptor: "\<exists>d s'. detectN P s = (Inr (Some d), s')"
  unfolding detectN_def
  by (rule cached_some) (simp add: detectNProducer_def caught_some)

lemma detectAllManagers_returns: "\<exists>l s'. detectAllManagers P s = (Inr l, s')"
proof (cases "get aggregateAccess ENVIRONMENT_DETECTION allManagersKey s")
  case (Pair hit s0)
  show ?thesis
  proof (cases hit)
    case (Some l)
    with Pair show ?thesis by (simp add: detectAllManagers_def)
  next
    case None
    obtain nvm s1 where nvm: "detectNVM P s0 = (Inr (Some nvm), s1)"
      using detectNVM_descriptor by blast
    obtain n s2 where n: "detectN P s1 = (Inr (Some n), s2)"
      using detectN_descriptor by blast
    show ?thesis using Pair None nvm n by (simp add: detectAllManagers_def)
  qed
qed

lemma spawned_get_aggregate:
  "spawned (snd (get aggregateAccess ns key s)) = spawned s"
  by (simp add: get_def aggregateAccess_def split: option.splits)

lemma spawned_get_descriptor:
  "spawned (snd (get descriptorAccess ns key s)) = spawned s"
  by (simp add: get_def descriptorAccess_def split: option.splits)

lemma spawned_set_descriptor:
  "spawned (setEntry descriptorAccess ns key v t s) = spawned s"
  by (simp add: setEntry_def descriptorAccess_def Let_def)

lemma spawned_set_aggregate:
  "spawned (setEntry aggregateAccess ns key v t s) = spawned s"
  by (simp add: setEntry_def aggregateAccess_def Let_def)

lemma spawned_runProcess:
  "spawned (snd (runProcess P command args s)) = spawned s @ [(command, args)]"
  by (simp add: runProcess_def split: prod.splits)

lemma spawned_detectNVMTry:
  "\<exists>new. spawned (snd (detectNVMTry P r s)) = spawned s @ new \<and> set new \<subseteq> set (nvmCommands P)"
proof (cases "isWindows P")
  case True
  obtain x s1 where e: "executeCommand P ''nvm'' [''version''] s = (x, s1)"
    by (cases "executeCommand P ''nvm'' [''version''] s") auto
  have s1: "spawned s1 = spawned s @ [(''nvm'', [''version''])]"
    using spawned_runProcess [of P "''nvm''" "[''version'']" s] e by (simp add: executeCommand_def)
  have "snd (detectNVMTry P r s) = s1"
    using True e by (simp add: detectNVMTry_def Let_def split: sum.splits)
  then show ?thesis using s1 by (simp add: nvmCommands_def)
next
  case False
  obtain x s1 where e: "executeCommand P ''nvm'' [''--version''] s = (x, s1)"
    by (cases "executeCommand P ''nvm'' [''--version''] s") auto
  have s1: "spawned s1 = spawned s @ [(''nvm'', [''--version''])]"
    using spawned_runProcess [of P "''nvm''" "[''--version'']" s] e by (simp add: executeCommand_def)
  obtain y s2 where f: "executeShellCommand P (sourceNvm P) s1 = (y, s2)"
    by (cases "executeShellCommand P (sourceNvm P) s1") auto
  have s2: "spawned s2 = spawned s @ [(''nvm'', [''--version'']),
              (fst (shellCommand P), snd (shellCommand P) @ [sourceNvm P])]"
    using spawned_runProcess [of P "fst (shellCommand P)" "snd (shellCommand P) @ [sourceNvm P]" s1] f s1
    by (simp add: executeShellCommand_def Let_def)
  have "snd (detectNVMTry P r s) = s1 \<or> snd (detectNVMTry P r s) = s2"
    using False e f by (simp add: detectNVMTry_def Let_def split: sum.splits)
  then show ?thesis
  proof
    assume "snd (detectNVMTry P r s) = s1"
    then show ?thesis using s1 by (simp add: nvmCommands_def)
  next
    assume "snd (detectNVMTry P r s) = s2"
    then show ?thesis using s2 by (simp add: nvmCommands_def)
  qed
qed

lemma snd_caught: "snd (caught r) = snd r"
  by (cases r) (auto simp add: caught_def split: option.splits)

lemma spawned_detectNVM:
  "\<exists>new. spawned (snd (detectNVM P s)) = spawned s @ new \<and> set new \<subseteq> set (nvmCommands P)"
proof (cases "get descriptorAccess MANAGER_DETECTION (nvmKey P) s")
  case (Pair hit s1)
  have s1: "spawned s1 = spawned s"
    using spawned_get_descriptor [of MANAGER_DETECTION "nvmKey P" s] Pair by simp
  show ?thesis
  proof (cases hit)
    case (Some v)
    with Pair have "snd (detectNVM P s) = s1" by (simp add: detectNVM_def cached_def)
    with s1 show ?thesis by simp
  next
    case None
    let ?attempt = "detectNVMTry P \<lparr> managerType = Nvm, available = False, toolVersion = None,
                     toolPath = None, errorText = None \<rparr> s1"
    obtain d s2 where c: "caught ?attempt = (Inr (Some d), s2)"
      using caught_some [of ?attempt] by blast
    then have p: "detectNVMProducer P s1 = (Inr (Some d), s2)"
      by (simp add: detectNVMProducer_def)
    have "s2 = snd ?attempt" using c snd_caught [of ?attempt] by simp
    then obtain new where n: "spawned s2 = spawned s1 @ new" "set new \<subseteq> set (nvmCommands P)"
      using spawned_detectNVMTry by blast
    have "snd (detectNVM P s) = setEntry descriptorAccess MANAGER_DETECTION (nvmKey P) (Some d)
             (Some cacheExpiry) s2"
      using Pair None p by (simp add: detectNVM_def cached_def)
    then show ?thesis using n s1 by (simp add: spawned_set_descriptor)
  qed
qed

lemma n_not_nvm_command: "(''n'', [''--version'']) \<notin> set (nvmCommands P)"
  by (auto simp add: nvmCommands_def sourceNvm_def)

text \<open>
  C2. In every run of \<open>detectAllManagers\<close> that finds no cached list, the probe of
  nvm returns a descriptor. When that descriptor is available, the list returned has
  this one entry, the state is the one the probe of nvm leaves with the list stored,
  and every command started during the run is a command of the probe of nvm, which
  \<open>n --version\<close> is not: the probe of n does not run. When the descriptor is not
  available, the probe of n runs on the state the probe of nvm leaves, and the list
  returned is the descriptor of nvm followed by that of n.
\<close>

theorem detect_short_circuit:
  assumes "fst (get aggregateAccess ENVIRONMENT_DETECTION allManagersKey s) = None"
  shows "(\<exists>nvm s1. detectNVM P (snd (get aggregateAccess ENVIRONMENT_DETECTION allManagersKey s)) =
                     (Inr (Some nvm), s1)) \<and>
         (detectNVM P (snd (get aggregateAccess ENVIRONMENT_DETECTION allManagersKey s)) =
            (Inr (Some nvm), s1) \<and> available nvm \<longrightarrow>
            detectAllManagers P s =
              (Inr [nvm], setEntry aggregateAccess ENVIRONMENT_DETECTION allManagersKey
                            (Some [nvm]) (Some cacheExpiry) s1) \<and>
            (\<exists>new. spawned (snd (detectAllManagers P s)) = spawned s @ new \<and>
                   set new \<subseteq> set (nvmCommands P)) \<and>
            (''n'', [''--version'']) \<notin> set (nvmCommands P)) \<and>
         (detectNVM P (snd (get aggregateAccess ENVIRONMENT_DETECTION allManagersKey s)) =
            (Inr (Some nvm), s1) \<and> \<not> available nvm \<longrightarrow>
            (\<exists>n s2. detectN P s1 = (Inr (Some n), s2) \<and>
               detectAllManagers P s =
                 (Inr [nvm, n], setEntry aggregateAccess ENVIRONMENT_DETECTION allManagersKey
                                  (Some [nvm, n]) (Some cacheExpiry) s2)))"
proof -
  define s0 where "s0 = snd (get aggregateAccess ENVIRONMENT_DETECTION allManagersKey s)"
  have g: "get aggregateAccess ENVIRONMENT_DETECTION allManagersKey s = (None, s0)"
    using assms unfolding s0_def
    by (cases "get aggregateAccess ENVIRONMENT_DETECTION allManagersKey s") auto
  have sp0: "spawned s0 = spawned s" unfolding s0_def by (rule spawned_get_aggregate)
  have one: "detectAllManagers P s =
              (Inr [nvm], setEntry aggregateAccess ENVIRONMENT_DETECTION allManagersKey
                            (Some [nvm]) (Some cacheExpiry) s1) \<and>
            (\<exists>new. spawned (snd (detectAllManagers P s)) = spawned s @ new \<and>
                   set new \<subseteq> set (nvmCommands P))"
    if d: "detectNVM P s0 = (Inr (Some nvm), s1)" and a: "available nvm"
  proof -
    have r: "detectAllManagers P s =
              (Inr [nvm], setEntry aggregateAccess ENVIRONMENT_DETECTION allManagersKey
                            (Some [nvm]) (Some cacheExpiry) s1)"
      by (simp add: detectAllManagers_def Let_def g d a)
    obtain new where "spawned (snd (detectNVM P s0)) = spawned s0 @ new"
      "set new \<subseteq> set (nvmCommands P)" using spawned_detectNVM by blast
    then have n: "spawned s1 = spawned s @ new" "set new \<subseteq> set (nvmCommands P)"
      using d sp0 by simp_all
    have "spawned (snd (detectAllManagers P s)) = spawned s1"
      by (simp add: r spawned_set_aggregate)
    with r n show ?thesis by auto
  qed
  have two: "\<exists>n s2. detectN P s1 = (Inr (Some n), s2) \<and>
               detectAllManagers P s =
                 (Inr [nvm, n], setEntry aggregateAccess ENVIRONMENT_DETECTION allManagersKey
                                  (Some [nvm, n]) (Some cacheExpiry) s2)"
    if d: "detectNVM P s0 = (Inr (Some nvm), s1)" and a: "\<not> available nvm"
  proof -
    obtain n s2 where n: "detectN P s1 = (Inr (Some n), s2)" using detectN_descriptor by blast
    have "detectAllManagers P s =
                 (Inr [nvm, n], setEntry aggregateAccess ENVIRONMENT_DETECTION allManagersKey
                                  (Some [nvm, n]) (Some cacheExpiry) s2)"
      by (simp add: detectAllManagers_def Let_def g d a n)
    with n show ?thesis by blast
  qed
  show ?thesis
    unfolding s0_def [symmetric]
    using detectNVM_descriptor [of P s0] one two n_not_nvm_command [of P] by blast
qed

text \<open>
  On a platform where every command succeeds the list has the descriptor of nvm alone
  and one command has run; where every command fails it has both descriptors, after
  the two attempts of the probe of nvm and the one of n.
\<close>

theorem detect_short_circuit_witness:
  "fst (detectAllManagers (unixPlatform allSucceed) (emptyState 0)) =
     Inr [\<lparr> managerType = Nvm, available = True, toolVersion = Some ''0.39.7'',
            toolPath = Some ''/home/u/.nvm'', errorText = None \<rparr>] \<and>
   spawned (snd (detectAllManagers (unixPlatform allSucceed) (emptyState 0))) =
     [(''nvm'', [''--version''])] \<and>
   fst (detectAllManagers (unixPlatform allFail) (emptyState 0)) =
     Inr [\<lparr> managerType = Nvm, available = False, toolVersion = None, toolPath = None,
            errorText = Some ''NVM not found or not properly configured'' \<rparr>,
          \<lparr> managerType = N, available = False, toolVersion = None, toolPath = None,
            errorText = Some ''N version manager not found'' \<rparr>] \<and>
   spawned (snd (detectAllManagers (unixPlatform allFail) (emptyState 0))) =
     [(''nvm'', [''--version'']),
      (''/bin/bash'', [''-c'', ''source /home/u/.nvm/nvm.sh && nvm --version'']),
      (''n'', [''--version''])]"
proof -
  let ?s0 = "snd (get aggregateAccess ENVIRONMENT_DETECTION allManagersKey (emptyState 0))"
  let ?up = "\<lparr> managerType = Nvm, available = True, toolVersion = Some ''0.39.7'',
            toolPath = Some ''/home/u/.nvm'', errorText = None \<rparr>"
  let ?down = "\<lparr> managerType = Nvm, available = False, toolVersion = None, toolPath = None,
            errorText = Some ''NVM not found or not properly configured'' \<rparr>"
  have m: "fst (get aggregateAccess ENVIRONMENT_DETECTION allManagersKey (emptyState 0)) = None"
    by (simp add: get_def aggregateAccess_def emptyState_def)
  note T = detect_short_circuit [OF m]
  have u: "fst (detectNVM (unixPlatform allSucceed) ?s0) = Inr (Some ?up)" by code_simp
  then have u': "detectNVM (unixPlatform allSucceed) ?s0 =
                  (Inr (Some ?up), snd (detectNVM (unixPlatform allSucceed) ?s0))"
    by (metis prod.collapse)
  have a: "fst (detectAllManagers (unixPlatform allSucceed) (emptyState 0)) = Inr [?up]"
    using T [of "unixPlatform allSucceed" ?up "snd (detectNVM (unixPlatform allSucceed) ?s0)"] u'
    by simp
  have b: "spawned (snd (detectAllManagers (unixPlatform allSucceed) (emptyState 0))) =
     [(''nvm'', [''--version''])]" by code_simp
  have d: "fst (detectNVM (unixPlatform allFail) ?s0) = Inr (Some ?down)" by code_simp
  then have d': "detectNVM (unixPlatform allFail) ?s0 =
                  (Inr (Some ?down), snd (detectNVM (unixPlatform allFail) ?s0))"
    by (metis prod.collapse)
  have "\<exists>n s2. detectAllManagers (unixPlatform allFail) (emptyState 0) =
          (Inr [?down, n], setEntry aggregateAccess ENVIRONMENT_DETECTION allManagersKey
                                  (Some [?down, n]) (Some cacheExpiry) s2)"
    using T [of "unixPlatform allFail" ?down "snd (detectNVM (unixPlatform allFail) ?s0)"] d'
    by auto
  then have two: "\<exists>n. fst (detectAllManagers (unixPlatform allFail) (emptyState 0)) = Inr [?down, n]"
    by auto
  have c: "fst (detectAllManagers (unixPlatform allFail) (emptyState 0)) =
     Inr [?down, \<lparr> managerType = N, available = False, toolVersion = None, toolPath = None,
            errorText = Some ''N version manager not found'' \<rparr>]" by code_simp
  have e: "spawned (snd (detectAllManagers (unixPlatform allFail) (emptyState 0))) =
     [(''nvm'', [''--version'']),
      (''/bin/bash'', [''-c'', ''source /home/u/.nvm/nvm.sh && nvm --version'']),
      (''n'', [''--version''])]" by code_simp
  from a b c e show ?thesis by blast
qed

lemma validAccess_descriptor: "validAccess descriptorAccess"
  by (simp add: validAccess_def descriptorAccess_def)

lemma validAccess_aggregate: "validAccess aggregateAccess"
  by (simp add: validAccess_def aggregateAccess_def)

lemma ttl_cacheExpiry: "ttlOrDefault (Some cacheExpiry) = cacheExpiry"
  by (simp add: ttlOrDefault_def cacheExpiry_def)

lemma nvm_probe_raises:
  assumes "nvmProbeRaises P s e"
  shows "fst (detectNVMProducer P s) = Inr (Some (failedDescriptor Nvm e))"
proof (cases "isWindows P")
  case True
  obtain x s1 where c: "executeCommand P ''nvm'' [''version''] s = (x, s1)"
    by (cases "executeCommand P ''nvm'' [''version''] s") auto
  with assms True have "x = Inl e" by (simp add: nvmProbeRaises_def)
  with True c show ?thesis
    by (simp add: detectNVMProducer_def detectNVMTry_def caught_def failedDescriptor_def)
next
  case False
  obtain x s1 where c: "executeCommand P ''nvm'' [''--version''] s = (x, s1)"
    by (cases "executeCommand P ''nvm'' [''--version''] s") auto
  show ?thesis
  proof (cases x)
    case (Inl y)
    with assms False c have "y = e" by (simp add: nvmProbeRaises_def)
    with False c Inl show ?thesis
      by (simp add: detectNVMProducer_def detectNVMTry_def caught_def failedDescriptor_def)
  next
    case (Inr r)
    obtain z s2 where f: "executeShellCommand P (sourceNvm P) s1 = (z, s2)"
      by (cases "executeShellCommand P (sourceNvm P) s1") auto
    from assms False c Inr f have "\<not> success r" "z = Inl e" by (simp_all add: nvmProbeRaises_def)
    with False c Inr f show ?thesis
      by (simp add: detectNVMProducer_def detectNVMTry_def caught_def failedDescriptor_def)
  qed
qed

lemma n_probe_raises:
  assumes "nProbeRaises P s e"
  shows "fst (detectNProducer P s) = Inr (Some (failedDescriptor N e))"
proof -
  obtain x s1 where c: "executeCommand P ''n'' [''--version''] s = (x, s1)"
    by (cases "executeCommand P ''n'' [''--version''] s") auto
  with assms have "x = Inl e" by (simp add: nProbeRaises_def)
  with c show ?thesis
    by (simp add: detectNProducer_def detectNTry_def caught_def failedDescriptor_def)
qed

lemma clock_set_descriptor: "clock (setEntry descriptorAccess ns key v t s) = clock s"
  by (simp add: setEntry_def descriptorAccess_def Let_def)

lemma clock_set_aggregate: "clock (setEntry aggregateAccess ns key v t s) = clock s"
  by (simp add: setEntry_def aggregateAccess_def Let_def)

lemma probe_stored:
  assumes "\<And>s1. \<exists>d s2. fn s1 = (Inr (Some d), s2)"
    and "fst (get descriptorAccess MANAGER_DETECTION key s) = None"
  shows "\<exists>d. fst (cached descriptorAccess MANAGER_DETECTION key fn (Some cacheExpiry) s) = Inr (Some d) \<and>
             lookupEntry descriptorAccess MANAGER_DETECTION key
               (snd (cached descriptorAccess MANAGER_DETECTION key fn (Some cacheExpiry) s)) =
             Some \<lparr> entryValue = Some d,
                    timestamp = clock (snd (cached descriptorAccess MANAGER_DETECTION key fn
                                              (Some cacheExpiry) s)),
                    ttl = cacheExpiry \<rparr>"
proof -
  let ?s1 = "snd (get descriptorAccess MANAGER_DETECTION key s)"
  obtain d s2 where p: "fn ?s1 = (Inr (Some d), s2)" using assms(1) by blast
  have c: "cached descriptorAccess MANAGER_DETECTION key fn (Some cacheExpiry) s =
        (Inr (Some d), setEntry descriptorAccess MANAGER_DETECTION key (Some d) (Some cacheExpiry) s2)"
    using cached_miss [OF assms(2), of fn "Some cacheExpiry"] p by (simp add: producerRun_def)
  have "dateNow descriptorAccess s2 = clock s2" by (simp add: descriptorAccess_def)
  then show ?thesis
    unfolding c
    using lookup_after_set [OF validAccess_descriptor, of MANAGER_DETECTION key "Some d" "Some cacheExpiry" s2]
    by (simp add: ttl_cacheExpiry clock_set_descriptor)
qed

lemma detectAll_stores:
  assumes "fst (get aggregateAccess ENVIRONMENT_DETECTION allManagersKey s) = None"
    and "detectAllManagers P s = (Inr l, s')"
  shows "lookupEntry aggregateAccess ENVIRONMENT_DETECTION allManagersKey s' =
           Some \<lparr> entryValue = Some l, timestamp = clock s', ttl = cacheExpiry \<rparr>"
proof -
  define s0 where "s0 = snd (get aggregateAccess ENVIRONMENT_DETECTION allManagersKey s)"
  have g: "get aggregateAccess ENVIRONMENT_DETECTION allManagersKey s = (None, s0)"
    using assms(1) unfolding s0_def
    by (cases "get aggregateAccess ENVIRONMENT_DETECTION allManagersKey s") auto
  obtain nvm s1 where d: "detectNVM P s0 = (Inr (Some nvm), s1)"
    using detectNVM_descriptor by blast
  obtain n s2 where n: "detectN P s1 = (Inr (Some n), s2)" using detectN_descriptor by blast
  have dn: "\<And>x. dateNow aggregateAccess x = clock x" by (simp add: aggregateAccess_def)
  show ?thesis
  proof (cases "available nvm")
    case True
    then have "detectAllManagers P s =
        (Inr [nvm], setEntry aggregateAccess ENVIRONMENT_DETECTION allManagersKey
                      (Some [nvm]) (Some cacheExpiry) s1)"
      by (simp add: detectAllManagers_def Let_def g d)
    with assms(2) [symmetric] have "(Inr l :: exception + ManagerDetectionResult list, s') =
      (Inr [nvm], setEntry aggregateAccess ENVIRONMENT_DETECTION allManagersKey
                    (Some [nvm]) (Some cacheExpiry) s1)" by (rule trans)
    then have "l = [nvm]"
      "s' = setEntry aggregateAccess ENVIRONMENT_DETECTION allManagersKey (Some [nvm]) (Some cacheExpiry) s1"
      by blast+
    then show ?thesis
      using lookup_after_set [OF validAccess_aggregate, of ENVIRONMENT_DETECTION allManagersKey
          "Some [nvm]" "Some cacheExpiry" s1]
      by (simp add: ttl_cacheExpiry clock_set_aggregate dn)
  next
    case False
    then have "detectAllManagers P s =
        (Inr [nvm, n], setEntry aggregateAccess ENVIRONMENT_DETECTION allManagersKey
                      (Some [nvm, n]) (Some cacheExpiry) s2)"
      by (simp add: detectAllManagers_def Let_def g d n)
    with assms(2) [symmetric] have "(Inr l :: exception + ManagerDetectionResult list, s') =
      (Inr [nvm, n], setEntry aggregateAccess ENVIRONMENT_DETECTION allManagersKey
                    (Some [nvm, n]) (Some cacheExpiry) s2)" by (rule trans)
    then have "l = [nvm, n]"
      "s' = setEntry aggregateAccess ENVIRONMENT_DETECTION allManagersKey (Some [nvm, n]) (Some cacheExpiry) s2"
      by blast+
    then show ?thesis
      using lookup_after_set [OF validAccess_aggregate, of ENVIRONMENT_DETECTION allManagersKey
          "Some [nvm, n]" "Some cacheExpiry" s2]
      by (simp add: ttl_cacheExpiry clock_set_aggregate dn)
  qed
qed

lemma detectAll_again:
  assumes "fst (get aggregateAccess ENVIRONMENT_DETECTION allManagersKey s) = None"
    and "detectAllManagers P s = (Inr l, s')"
    and "aggregateCache s'' = aggregateCache s'"
    and "clock s'' - clock s' \<le> cacheExpiry"
  shows "detectAllManagers P' s'' = (Inr l, s'')"
proof -
  let ?e = "\<lparr> entryValue = Some l, timestamp = clock s', ttl = cacheExpiry \<rparr>"
  have "lookupEntry aggregateAccess ENVIRONMENT_DETECTION allManagersKey s'' = Some ?e"
    using detectAll_stores [OF assms(1,2)] assms(3)
    by (simp add: lookupEntry_def aggregateAccess_def)
  moreover have "dateNow aggregateAccess s'' - timestamp ?e \<le> ttl ?e"
    using assms(4) by (simp add: aggregateAccess_def)
  ultimately have "get aggregateAccess ENVIRONMENT_DETECTION allManagersKey s'' = (entryValue ?e, s'')"
    by (rule get_live)
  then show ?thesis by (simp add: detectAllManagers_def)
qed

lemma caught_error:
  assumes "fst (fst x) = Some e"
  shows "\<exists>d. fst (caught x) = Inr (Some d) \<and> errorText d = Some (errorMessage e)"
  using assms by (cases x) (auto simp add: caught_def split: option.splits)

lemma nvm_any_exception:
  assumes "fst (fst (detectNVMTry P (initialDescriptor Nvm) s)) = Some e"
  shows "\<exists>d. fst (detectNVMProducer P s) = Inr (Some d) \<and> errorText d = Some (errorMessage e)"
  using caught_error [OF assms] by (simp add: detectNVMProducer_def initialDescriptor_def)

lemma n_any_exception:
  assumes "fst (fst (detectNTry P (initialDescriptor N) s)) = Some e"
  shows "\<exists>d. fst (detectNProducer P s) = Inr (Some d) \<and> errorText d = Some (errorMessage e)"
  using caught_error [OF assms] by (simp add: detectNProducer_def initialDescriptor_def)

lemma caught_available:
  "\<exists>d. fst (caught x) = Inr (Some d) \<and> available d = available (snd (fst x))"
  by (cases x) (auto simp add: caught_def split: option.splits)

lemma nvm_available:
  "\<exists>d. fst (detectNVMProducer P s) = Inr (Some d) \<and> available d = nvmVersionSucceeds P s"
proof -
  let ?attempt = "detectNVMTry P (initialDescriptor Nvm) s"
  have a: "available (snd (fst ?attempt)) = nvmVersionSucceeds P s"
  proof (cases "isWindows P")
    case True
    obtain x s1 where c: "executeCommand P ''nvm'' [''version''] s = (x, s1)"
      by (cases "executeCommand P ''nvm'' [''version''] s") auto
    show ?thesis using True c
      by (cases x)
         (auto simp add: detectNVMTry_def nvmVersionSucceeds_def initialDescriptor_def Let_def
            split: sum.splits)
  next
    case False
    obtain x s1 where c: "executeCommand P ''nvm'' [''--version''] s = (x, s1)"
      by (cases "executeCommand P ''nvm'' [''--version''] s") auto
    obtain y s2 where f: "executeShellCommand P (sourceNvm P) s1 = (y, s2)"
      by (cases "executeShellCommand P (sourceNvm P) s1") auto
    show ?thesis using False c f
      by (cases x; cases y)
         (auto simp add: detectNVMTry_def nvmVersionSucceeds_def initialDescriptor_def)
  qed
  from caught_available [of ?attempt] a show ?thesis
    by (simp add: detectNVMProducer_def initialDescriptor_def)
qed

lemma n_available:
  "\<exists>d. fst (detectNProducer P s) = Inr (Some d) \<and> available d = nVersionSucceeds P s"
proof -
  let ?attempt = "detectNTry P (initialDescriptor N) s"
  obtain x s1 where c: "executeCommand P ''n'' [''--version''] s = (x, s1)"
    by (cases "executeCommand P ''n'' [''--version''] s") auto
  obtain y s2 where w: "executeCommand P (if isWindows P then ''where'' else ''which'') [''n''] s1 = (y, s2)"
    by (cases "executeCommand P (if isWindows P then ''where'' else ''which'') [''n''] s1") auto
  have a: "available (snd (fst ?attempt)) = nVersionSucceeds P s"
    using c w
    by (cases x; cases y)
       (auto simp add: detectNTry_def nVersionSucceeds_def initialDescriptor_def Let_def)
  from caught_available [of ?attempt] a show ?thesis
    by (simp add: detectNProducer_def initialDescriptor_def)
qed

text \<open>
  C8 (as amended). Whatever throws inside the detection of a manager, the
  exception is caught: the error of the descriptor is its message (\<open>"Unknown
  error"\<close> when the value thrown is not an \<open>Error\<close>) and nothing is thrown to the
  caller, so \<open>detectNVM\<close>, \<open>detectN\<close> and \<open>detectAllManagers\<close> always return.
  The descriptor is available exactly when the version command of the manager ran
  and reported success: when the run of the version command throws, the descriptor
  is not available and has no version and no path. The descriptor of a probe,
  available or not, is stored for \<open>cacheExpiry\<close>. After a run of
  \<open>detectAllManagers\<close> that found no cached list, every run in a state that still
  holds the list it stored and whose clock is at most \<open>cacheExpiry\<close> later returns
  the same list and leaves the state as it is, on whatever platform: no probe runs
  again.
\<close>

theorem probe_failures_cached:
  "(nvmProbeRaises P s e \<longrightarrow> fst (detectNVMProducer P s) = Inr (Some (failedDescriptor Nvm e))) \<and>
   (nProbeRaises P s e \<longrightarrow> fst (detectNProducer P s) = Inr (Some (failedDescriptor N e))) \<and>
   (fst (fst (detectNVMTry P (initialDescriptor Nvm) s)) = Some e \<longrightarrow>
      (\<exists>d. fst (detectNVMProducer P s) = Inr (Some d) \<and> errorText d = Some (errorMessage e))) \<and>
   (fst (fst (detectNTry P (initialDescriptor N) s)) = Some e \<longrightarrow>
      (\<exists>d. fst (detectNProducer P s) = Inr (Some d) \<and> errorText d = Some (errorMessage e))) \<and>
   (\<exists>d. fst (detectNVMProducer P s) = Inr (Some d) \<and> available d = nvmVersionSucceeds P s) \<and>
   (\<exists>d. fst (detectNProducer P s) = Inr (Some d) \<and> available d = nVersionSucceeds P s) \<and>
   (\<exists>d s'. detectNVM P s = (Inr (Some d), s')) \<and>
   (\<exists>d s'. detectN P s = (Inr (Some d), s')) \<and>
   (\<exists>l s'. detectAllManagers P s = (Inr l, s')) \<and>
   (fst (get descriptorAccess MANAGER_DETECTION (nvmKey P) s) = None \<longrightarrow>
      (\<exists>d. fst (detectNVM P s) = Inr (Some d) \<and>
           lookupEntry descriptorAccess MANAGER_DETECTION (nvmKey P) (snd (detectNVM P s)) =
             Some \<lparr> entryValue = Some d, timestamp = clock (snd (detectNVM P s)),
                    ttl = cacheExpiry \<rparr>)) \<and>
   (fst (get descriptorAccess MANAGER_DETECTION ''n_manager'' s) = None \<longrightarrow>
      (\<exists>d. fst (detectN P s) = Inr (Some d) \<and>
           lookupEntry descriptorAccess MANAGER_DETECTION ''n_manager'' (snd (detectN P s)) =
             Some \<lparr> entryValue = Some d, timestamp = clock (snd (detectN P s)),
                    ttl = cacheExpiry \<rparr>)) \<and>
   (fst (get aggregateAccess ENVIRONMENT_DETECTION allManagersKey s) = None \<and>
    detectAllManagers P s = (Inr l, s') \<and> aggregateCache s'' = aggregateCache s' \<and>
    clock s'' - clock s' \<le> cacheExpiry \<longrightarrow>
      detectAllManagers P' s'' = (Inr l, s''))"
proof -
  have pn: "\<And>s1. \<exists>d s2. detectNVMProducer P s1 = (Inr (Some d), s2)"
    by (simp add: detectNVMProducer_def caught_some)
  have pm: "\<And>s1. \<exists>d s2. detectNProducer P s1 = (Inr (Some d), s2)"
    by (simp add: detectNProducer_def caught_some)
  show ?thesis
    using nvm_probe_raises [of P s e] n_probe_raises [of P s e]
      nvm_any_exception [of P s e] n_any_exception [of P s e]
      nvm_available [of P s] n_available [of P s]
      detectNVM_descriptor [of P s] detectN_descriptor [of P s] detectAllManagers_returns [of P s]
      probe_stored [of "detectNVMProducer P" "nvmKey P" s, OF pn, folded detectNVM_def]
      probe_stored [of "detectNProducer P" "''n_manager''" s, OF pm, folded detectN_def]
      detectAll_again [of s P l s' s'' P']
    by blast
qed

text \<open>
  Where \<open>spawn\<close> throws, both descriptors carry its message. After a run where every
  command failed, a run at the end of the five minutes returns the two unavailable
  descriptors, even on a platform where every command would succeed, and the three
  commands of the first run are the only ones started.
\<close>

theorem probe_failures_cached_witness:
  "fst (detectNVMProducer (unixPlatform allThrow) (emptyState 0)) =
     Inr (Some (failedDescriptor Nvm (Error ''spawn EAGAIN''))) \<and>
   fst (detectNProducer (unixPlatform allThrow) (emptyState 0)) =
     Inr (Some (failedDescriptor N (Error ''spawn EAGAIN''))) \<and>
   detectAllManagers (unixPlatform allSucceed)
     ((snd (detectAllManagers (unixPlatform allFail) (emptyState 0)))
        \<lparr>clock := clock (snd (detectAllManagers (unixPlatform allFail) (emptyState 0))) +
                   cacheExpiry\<rparr>) =
     (Inr [\<lparr> managerType = Nvm, available = False, toolVersion = None, toolPath = None,
             errorText = Some ''NVM not found or not properly configured'' \<rparr>,
           \<lparr> managerType = N, available = False, toolVersion = None, toolPath = None,
             errorText = Some ''N version manager not found'' \<rparr>],
      (snd (detectAllManagers (unixPlatform allFail) (emptyState 0)))
        \<lparr>clock := clock (snd (detectAllManagers (unixPlatform allFail) (emptyState 0))) +
                   cacheExpiry\<rparr>) \<and>
   spawned ((snd (detectAllManagers (unixPlatform allFail) (emptyState 0)))
        \<lparr>clock := clock (snd (detectAllManagers (unixPlatform allFail) (emptyState 0))) +
                   cacheExpiry\<rparr>) =
     [(''nvm'', [''--version'']),
      (''/bin/bash'', [''-c'', ''source /home/u/.nvm/nvm.sh && nvm --version'']),
      (''n'', [''--version''])]"
proof -
  let ?first = "detectAllManagers (unixPlatform allFail) (emptyState 0)"
  let ?later = "(snd ?first)\<lparr>clock := clock (snd ?first) + cacheExpiry\<rparr>"
  let ?l = "[\<lparr> managerType = Nvm, available = False, toolVersion = None, toolPath = None,
             errorText = Some ''NVM not found or not properly configured'' \<rparr>,
           \<lparr> managerType = N, available = False, toolVersion = None, toolPath = None,
             errorText = Some ''N version manager not found'' \<rparr>]"
  have r1: "nvmProbeRaises (unixPlatform allThrow) (emptyState 0) (Error ''spawn EAGAIN'')"
    by code_simp
  have r2: "nProbeRaises (unixPlatform allThrow) (emptyState 0) (Error ''spawn EAGAIN'')"
    by code_simp
  have a: "fst (detectNVMProducer (unixPlatform allThrow) (emptyState 0)) =
     Inr (Some (failedDescriptor Nvm (Error ''spawn EAGAIN'')))"
    using probe_failures_cached [of "unixPlatform allThrow" "emptyState 0" "Error ''spawn EAGAIN''"] r1
    by blast
  have b: "fst (detectNProducer (unixPlatform allThrow) (emptyState 0)) =
     Inr (Some (failedDescriptor N (Error ''spawn EAGAIN'')))"
    using probe_failures_cached [of "unixPlatform allThrow" "emptyState 0" "Error ''spawn EAGAIN''"] r2
    by blast
  have m: "fst (get aggregateAccess ENVIRONMENT_DETECTION allManagersKey (emptyState 0)) = None"
    by (simp add: get_def aggregateAccess_def emptyState_def)
  have f: "fst ?first = Inr ?l" by code_simp
  then have f': "?first = (Inr ?l, snd ?first)" by (metis prod.collapse)
  have h1: "aggregateCache ?later = aggregateCache (snd ?first)" by simp
  have h2: "clock ?later - clock (snd ?first) \<le> cacheExpiry" by simp
  have c: "detectAllManagers (unixPlatform allSucceed) ?later = (Inr ?l, ?later)"
    using probe_failures_cached [of "unixPlatform allFail" "emptyState 0" _ ?l "snd ?first"
        ?later "unixPlatform allSucceed"] m f' h1 h2
    by blast
  have d: "spawned ?later =
     [(''nvm'', [''--version'']),
      (''/bin/bash'', [''-c'', ''source /home/u/.nvm/nvm.sh && nvm --version'']),
      (''n'', [''--version''])]" by code_simp
  from a b c d show ?thesis by blast
qed

text \<open>
  The sentence of the specification, as it is written, fails for an exception that
  is thrown once the version command has succeeded: where \<open>n --version\<close> succeeds
  and the \<open>spawn\<close> of \<open>which\<close> throws, the descriptor of n carries the message
  and is available.
\<close>

theorem probe_failures_cached_counterexample:
  "fst (detectN (unixPlatform onlyNRuns) (emptyState 0)) =
     Inr (Some \<lparr> managerType = N, available = True, toolVersion = Some ''9.2.1'',
                 toolPath = None, errorText = Some ''spawn ENOMEM'' \<rparr>) \<and>
   fst (detectAllManagers (unixPlatform onlyNRuns) (emptyState 0)) =
     Inr [failedDescriptor Nvm (Error ''spawn ENOMEM''),
          \<lparr> managerType = N, available = True, toolVersion = Some ''9.2.1'',
            toolPath = None, errorText = Some ''spawn ENOMEM'' \<rparr>]"
  by code_simp

end
